theory Spec2Isabelle
  imports Complex_Main "HOL-Library.Sublist"
begin

section \<open>Data model (types.ts)\<close>

text \<open>
  Times, speeds and playback rates are JavaScript numbers in the source. They are modelled
  as real numbers: the decimal constants of the source (\<open>0.01\<close>, \<open>0.05\<close>, \<open>0.1\<close>) are
  the exact rationals, and rounding of IEEE doubles is outside this development.
\<close>

datatype SegmentType = CORE | CONTEXT | MECHANICAL | SILENCE | FILLER

datatype SegmentAction = KEEP | DELETE

text \<open>
  The interface \<open>EditSegment\<close>. The fields \<open>end\<close> and \<open>type\<close> of the source are written
  \<open>end'\<close> and \<open>type'\<close>; the optional field \<open>isProcessing\<close> is an option.
\<close>

record EditSegment =
  start :: real
  end' :: real
  speed :: real
  action :: SegmentAction
  type' :: SegmentType
  summary :: string
  isProcessing :: "bool option"

text \<open>The string value of a member of the enum \<open>SegmentType\<close>.\<close>

fun type_name :: "SegmentType \<Rightarrow> string" where
  "type_name CORE = ''CORE''"
| "type_name CONTEXT = ''CONTEXT''"
| "type_name MECHANICAL = ''MECHANICAL''"
| "type_name SILENCE = ''SILENCE''"
| "type_name FILLER = ''FILLER''"

section \<open>Segment locator (SmartPlayer.tsx, getActiveSegment)\<close>

text \<open>
  \<open>segments.find(s => time >= s.start && time < s.end)\<close>: the first element, in array
  order, whose half-open interval holds the time; \<open>undefined\<close> is \<open>None\<close>.
\<close>

definition getActiveSegment :: "EditSegment list \<Rightarrow> real \<Rightarrow> EditSegment option" where
  "getActiveSegment segments time = find (\<lambda>s. time \<ge> start s \<and> time < end' s) segments"

text \<open>
  The locator as the specification words it: the first segment, taken in ascending order
  of \<open>start\<close>, whose interval holds the time. \<open>sort_key\<close> is a stable sort.
\<close>

definition locate_spec :: "EditSegment list \<Rightarrow> real \<Rightarrow> EditSegment option" where
  "locate_spec segments t = find (\<lambda>s. t \<ge> start s \<and> t < end' s) (sort_key start segments)"

section \<open>Live playback controller (SmartPlayer.tsx, updateLoop)\<close>

text \<open>
  The part of an \<open>HTMLVideoElement\<close> the controllers read and write. A write to
  \<open>currentTime\<close> or \<open>playbackRate\<close> stores the written value; what the browser makes of
  it afterwards (clamping, the asynchronous seek) is the transport's business.
\<close>

record HTMLVideoElement =
  currentTime :: real
  playbackRate :: real
  paused :: bool
  ended :: bool

text \<open>
  What one tick does to the outside, in program order: calls of the callbacks of the
  props, commands to the video element, and the request for the next frame.
\<close>

datatype player_effect =
    OnTimeUpdate real
  | VideoPause
  | OnStopReached
  | WriteCurrentTime real
  | WritePlaybackRate real
  | RequestAnimationFrame

text \<open>
  The props of the component. The two optional callbacks are modelled by whether they are
  given; \<open>stopAt\<close> is \<open>None\<close> for \<open>null\<close> and \<open>undefined\<close>.
\<close>

record SmartPlayerProps =
  segments :: "EditSegment list"
  onTimeUpdate :: bool
  stopAt :: "real option"
  onStopReached :: bool

text \<open>
  The component's state: the ref to the video element (\<open>None\<close> while it is not mounted),
  the React state variables, and the effects issued so far.
\<close>

record SmartPlayer =
  videoRef :: "HTMLVideoElement option"
  isPlaying :: bool
  currentSpeed :: real
  currentAction :: string
  currentReason :: string
  effects :: "player_effect list"

definition emit :: "player_effect \<Rightarrow> SmartPlayer \<Rightarrow> SmartPlayer" where
  "emit e p = p\<lparr>effects := effects p @ [e]\<rparr>"

text \<open>One run of \<open>updateLoop\<close>, statement by statement.\<close>

definition updateLoop :: "SmartPlayerProps \<Rightarrow> SmartPlayer \<Rightarrow> SmartPlayer" where
  "updateLoop props p =
    (case videoRef p of
      None \<Rightarrow> p
    | Some v \<Rightarrow>
        let time = currentTime v;
            p1 = (if onTimeUpdate props then emit (OnTimeUpdate time) p else p)
        in
        if (case stopAt props of None \<Rightarrow> False | Some t \<Rightarrow> time \<ge> t) then
          (let p2 = emit VideoPause (p1\<lparr>videoRef := Some (v\<lparr>paused := True\<rparr>)\<rparr>);
               p3 = p2\<lparr>isPlaying := False\<rparr>
           in if onStopReached props then emit OnStopReached p3 else p3)
        else
          (let p2 =
            (case getActiveSegment (segments props) time of
              Some segment \<Rightarrow>
                (let q = p1\<lparr>currentReason := summary segment,
                            currentAction := type_name (type' segment)\<rparr>
                 in
                 if action segment = DELETE then
                   emit (WriteCurrentTime (end' segment + 0.01))
                     (q\<lparr>videoRef := Some (v\<lparr>currentTime := end' segment + 0.01\<rparr>)\<rparr>)
                 else if \<bar>playbackRate v - speed segment\<bar> > 0.1 then
                   (emit (WritePlaybackRate (speed segment))
                     (q\<lparr>videoRef := Some (v\<lparr>playbackRate := speed segment\<rparr>)\<rparr>))
                       \<lparr>currentSpeed := speed segment\<rparr>
                 else q)
            | None \<Rightarrow>
                if playbackRate v \<noteq> 1 then
                  (emit (WritePlaybackRate 1)
                    (p1\<lparr>videoRef := Some (v\<lparr>playbackRate := 1\<rparr>)\<rparr>))\<lparr>currentSpeed := 1\<rparr>
                else p1)
           in emit RequestAnimationFrame p2))"

text \<open>The segment lists of the specification's scenarios A and B.\<close>

definition seg :: "real \<Rightarrow> real \<Rightarrow> real \<Rightarrow> SegmentAction \<Rightarrow> EditSegment" where
  "seg a b sp act =
    \<lparr>start = a, end' = b, speed = sp, action = act, type' = CORE, summary = [],
     isProcessing = None\<rparr>"

definition scenario_A :: "EditSegment list" where
  "scenario_A = [seg 0 5 1 KEEP, seg 5 8 1 DELETE, seg 8 12 2 KEEP]"

definition scenario_B :: "EditSegment list" where
  "scenario_B = [seg 0 10 1 KEEP]"

text \<open>A mounted player whose video stands at a position with a playback rate.\<close>

definition player_at :: "real \<Rightarrow> real \<Rightarrow> SmartPlayer" where
  "player_at t r =
    \<lparr>videoRef = Some \<lparr>currentTime = t, playbackRate = r, paused = False, ended = False\<rparr>,
     isPlaying = True, currentSpeed = r, currentAction = [], currentReason = [],
     effects = []\<rparr>"

definition props_of :: "EditSegment list \<Rightarrow> real option \<Rightarrow> SmartPlayerProps" where
  "props_of segs st =
    \<lparr>segments = segs, onTimeUpdate = False, stopAt = st, onStopReached = False\<rparr>"

section \<open>Segment refinement (geminiService.ts, refineSegment; App.tsx, handleSplitSegment)\<close>




text \<open>
  The store invariant of the specification, "no two KEEP segments overlap": two segments
  overlap when their half-open intervals share a point.
\<close>

definition overlap :: "EditSegment \<Rightarrow> EditSegment \<Rightarrow> bool" where
  "overlap a b = (max (start a) (start b) < min (end' a) (end' b))"

definition keep_overlap :: "EditSegment \<Rightarrow> EditSegment \<Rightarrow> bool" where
  "keep_overlap a b = (action a = KEEP \<and> action b = KEEP \<and> overlap a b)"

definition no_keep_overlap :: "EditSegment list \<Rightarrow> bool" where
  "no_keep_overlap segs = sorted_wrt (\<lambda>a b. \<not> keep_overlap a b) segs"

section \<open>Export controller (videoExport.ts, exportProcessedVideo)\<close>

subsection \<open>The objects of the export\<close>

text \<open>The hidden video element: the transport, and whether it is attached to the document.\<close>

record ExportVideo = HTMLVideoElement +
  parentNode :: bool

datatype RecordingState = Inactive | Recording

record MediaRecorder =
  rec_state :: RecordingState
  rec_mimeType :: string

record Blob =
  bytes :: "nat list"
  mime :: string

text \<open>The value a rejected \<open>play()\<close> promise carries: a \<open>DOMException\<close>.\<close>

record PlayError =
  err_name :: string
  err_message :: string

text \<open>The promise that \<open>exportProcessedVideo\<close> returns. It settles once.\<close>

datatype settlement = Pending | Resolved Blob string | Rejected string

text \<open>
  Every call of \<open>onSeeked\<close> makes a fresh local \<open>isPlaying\<close> and a fresh \<open>checkEnd\<close>
  that captures it together with \<open>seg\<close>. The closures live in a list; a listener and a
  pending \<open>play()\<close> promise name their closure by its index.
\<close>

record closure =
  cl_seg :: EditSegment
  cl_isPlaying :: bool

text \<open>What the controller does to the outside, in program order.\<close>

datatype export_effect =
    Progress int
  | SetPlaybackRate real
  | SetCurrentTime real
  | Play
  | Pause
  | AddTimeupdateListener nat
  | RemoveTimeupdateListener nat
  | AddSeekedListener
  | SetTimeout
  | RemoveChild
  | RecorderStart
  | RecorderStop
  | CallResolve
  | CallReject string

text \<open>
  What the browser decides: whether \<open>video.play()\<close> returns a promise, whether the video
  has \<open>captureStream\<close> or \<open>mozCaptureStream\<close>, and which container types the recorder
  supports.
\<close>

record env =
  play_returns_promise :: bool
  captureStream :: bool
  isTypeSupported :: "string \<Rightarrow> bool"

text \<open>
  The variables of the closure of \<open>exportProcessedVideo\<close>, the listeners attached to the
  video, the tasks the browser still owes (timeouts, \<open>play()\<close> promises, \<open>stop\<close> events of
  the recorder), the returned promise and the effects so far.
\<close>

record Export =
  ex_segments :: "EditSegment list"
  video :: ExportVideo
  mediaRecorder :: "MediaRecorder option"
  mimeType :: string
  extension :: string
  chunks :: "Blob list"
  currentSegmentIndex :: nat
  closures :: "closure list"
  timeupdate :: "nat list"
  seeked :: "EditSegment list"
  timeouts :: nat
  playPromises :: "nat list"
  stopEvents :: nat
  metadataLoaded :: bool
  promise :: settlement
  trace :: "export_effect list"

definition issue :: "export_effect \<Rightarrow> Export \<Rightarrow> Export" where
  "issue e s = s\<lparr>trace := trace s @ [e]\<rparr>"

text \<open>\<open>resolve\<close> and \<open>reject\<close> of the promise: a call on a settled promise changes nothing.\<close>

definition resolve :: "Blob \<Rightarrow> string \<Rightarrow> Export \<Rightarrow> Export" where
  "resolve blob ext s =
    issue CallResolve (if promise s = Pending then s\<lparr>promise := Resolved blob ext\<rparr> else s)"

definition reject :: "string \<Rightarrow> Export \<Rightarrow> Export" where
  "reject msg s =
    issue (CallReject msg) (if promise s = Pending then s\<lparr>promise := Rejected msg\<rparr> else s)"

text \<open>
  \<open>MediaRecorder.stop()\<close>: the state becomes inactive at once and a \<open>stop\<close> event is
  queued; on an inactive recorder the call does nothing.
\<close>

definition MediaRecorder_stop :: "Export \<Rightarrow> Export" where
  "MediaRecorder_stop s =
    (case mediaRecorder s of
      None \<Rightarrow> s
    | Some r \<Rightarrow>
        if rec_state r = Inactive then s
        else issue RecorderStop
          (s\<lparr>mediaRecorder := Some (r\<lparr>rec_state := Inactive\<rparr>), stopEvents := stopEvents s + 1\<rparr>))"

subsection \<open>The functions of the export\<close>

definition cleanup :: "Export \<Rightarrow> Export" where
  "cleanup s =
    (let s1 = (if parentNode (video s)
               then issue RemoveChild (s\<lparr>video := (video s)\<lparr>parentNode := False\<rparr>\<rparr>)
               else s)
     in case mediaRecorder s1 of
          None \<Rightarrow> s1
        | Some r \<Rightarrow> if rec_state r \<noteq> Inactive then MediaRecorder_stop s1 else s1)"

text \<open>
  \<open>onSeeked\<close> for the segment \<open>sg\<close>: set the speed, make the closure with
  \<open>isPlaying = false\<close>, attach \<open>checkEnd\<close>, call \<open>play()\<close> (which clears \<open>paused\<close>) and
  either keep the promise or, where \<open>play()\<close> returns none, set \<open>isPlaying\<close> at once.
\<close>

definition onSeeked :: "env \<Rightarrow> EditSegment \<Rightarrow> Export \<Rightarrow> Export" where
  "onSeeked env sg s =
    (let s1 = issue (SetPlaybackRate (speed sg))
                (s\<lparr>video := (video s)\<lparr>playbackRate := speed sg\<rparr>\<rparr>);
         c = length (closures s1);
         s2 = issue (AddTimeupdateListener c)
                (s1\<lparr>closures := closures s1 @ [\<lparr>cl_seg = sg, cl_isPlaying = False\<rparr>],
                    timeupdate := timeupdate s1 @ [c]\<rparr>);
         s3 = issue Play (s2\<lparr>video := (video s2)\<lparr>paused := False\<rparr>\<rparr>)
     in if play_returns_promise env then s3\<lparr>playPromises := playPromises s3 @ [c]\<rparr>
        else s3\<lparr>closures := (closures s3)[c := (closures s3 ! c)\<lparr>cl_isPlaying := True\<rparr>]\<rparr>)"

text \<open>
  The percentage reported before segment \<open>i\<close> of \<open>n\<close>:
  \<open>Math.min(100, Math.round((i / n) * 100))\<close>; \<open>Math.round\<close> rounds a half upwards, as
  \<open>round\<close> does.
\<close>

definition progress :: "nat \<Rightarrow> nat \<Rightarrow> int" where
  "progress i n = min 100 (round (real i / real n * 100))"

text \<open>
  \<open>processNextSegment\<close>. Where the index is past the last segment it runs
  \<open>mediaRecorder?.stop()\<close>. It calls \<open>onSeeked\<close> directly or leaves it as a \<open>once\<close>
  listener of \<open>seeked\<close>; for a deleted segment it calls nothing and leaves itself to
  \<open>setTimeout\<close>.
\<close>

definition processNextSegment :: "env \<Rightarrow> Export \<Rightarrow> Export" where
  "processNextSegment env s =
    (if currentSegmentIndex s \<ge> length (ex_segments s) then MediaRecorder_stop s
     else
       let sg = ex_segments s ! currentSegmentIndex s;
           s1 = issue (Progress (progress (currentSegmentIndex s) (length (ex_segments s)))) s
       in
       if action sg = DELETE then
         issue SetTimeout
           (s1\<lparr>currentSegmentIndex := currentSegmentIndex s1 + 1, timeouts := timeouts s1 + 1\<rparr>)
       else if \<bar>currentTime (video s1) - start sg\<bar> < 0.05 then onSeeked env sg s1
       else
         issue (SetCurrentTime (start sg))
           ((issue AddSeekedListener (s1\<lparr>seeked := seeked s1 @ [sg]\<rparr>))
              \<lparr>video := (video s1)\<lparr>currentTime := start sg\<rparr>\<rparr>))"

text \<open>
  The three statements that \<open>checkEnd\<close> and the \<open>then\<close> callback share before they call
  \<open>processNextSegment\<close>: pause, detach \<open>checkEnd\<close>, increment the index.
\<close>

definition pauseDetachIncrement :: "nat \<Rightarrow> Export \<Rightarrow> Export" where
  "pauseDetachIncrement c s =
    (let s1 = issue Pause (s\<lparr>video := (video s)\<lparr>paused := True\<rparr>\<rparr>);
         s2 = issue (RemoveTimeupdateListener c) (s1\<lparr>timeupdate := removeAll c (timeupdate s1)\<rparr>)
     in s2\<lparr>currentSegmentIndex := currentSegmentIndex s2 + 1\<rparr>)"

text \<open>\<open>checkEnd\<close> of the closure \<open>c\<close>, the position monitor.\<close>

definition checkEnd :: "env \<Rightarrow> nat \<Rightarrow> Export \<Rightarrow> Export" where
  "checkEnd env c s =
    (if c \<ge> length (closures s) then s
     else if paused (video s) \<or> ended (video s) then s
     else if \<not> cl_isPlaying (closures s ! c) then s
     else if currentTime (video s) \<ge> end' (cl_seg (closures s ! c)) then
       processNextSegment env (pauseDetachIncrement c s)
     else s)"

text \<open>The \<open>then\<close> and the \<open>catch\<close> callback of the \<open>play()\<close> promise of the closure \<open>c\<close>.\<close>

definition playThen :: "env \<Rightarrow> nat \<Rightarrow> Export \<Rightarrow> Export" where
  "playThen env c s =
    (if c \<ge> length (closures s) then s
     else
       let s1 = s\<lparr>closures := (closures s)[c := (closures s ! c)\<lparr>cl_isPlaying := True\<rparr>]\<rparr>
       in if currentTime (video s1) \<ge> end' (cl_seg (closures s1 ! c)) then
            processNextSegment env (pauseDetachIncrement c s1)
          else s1)"

definition playCatch :: "PlayError \<Rightarrow> Export \<Rightarrow> Export" where
  "playCatch error s =
    (if err_name error \<noteq> ''AbortError'' then
       reject (''Playback failed during export: '' @ err_message error) (cleanup s)
     else s)"

text \<open>\<open>mediaRecorder.ondataavailable\<close>, \<open>mediaRecorder.onstop\<close> and \<open>video.onerror\<close>.\<close>

definition ondataavailable :: "Blob \<Rightarrow> Export \<Rightarrow> Export" where
  "ondataavailable b s = (if length (bytes b) > 0 then s\<lparr>chunks := chunks s @ [b]\<rparr> else s)"

definition onstop :: "Export \<Rightarrow> Export" where
  "onstop s =
    (let blob = \<lparr>bytes = concat (map bytes (chunks s)), mime = mimeType s\<rparr>
     in resolve blob (extension s) (cleanup s))"

definition onerror :: "Export \<Rightarrow> Export" where
  "onerror s = reject ''Failed to load video for export'' (cleanup s)"

text \<open>
  \<open>startExport\<close>. Two statements of its \<open>try\<close> block can throw: the call of a missing
  \<open>captureStream\<close> and the constructor of the recorder on a type it does not support.
\<close>

definition startExport :: "env \<Rightarrow> Export \<Rightarrow> Export" where
  "startExport env s =
    (if \<not> captureStream env then reject ''TypeError'' (cleanup s)
     else
       let (mt, ext) =
         (if isTypeSupported env ''video/mp4'' then (''video/mp4'', ''mp4'')
          else if isTypeSupported env ''video/webm; codecs=vp9''
               then (''video/webm; codecs=vp9'', ''webm'')
          else (''video/webm'', ''webm''))
       in
       if \<not> isTypeSupported env mt then reject ''NotSupportedError'' (cleanup s)
       else
         processNextSegment env
           (issue RecorderStart
             (s\<lparr>mimeType := mt, extension := ext,
                mediaRecorder := Some \<lparr>rec_state = Recording, rec_mimeType = mt\<rparr>\<rparr>)))"

subsection \<open>The event loop\<close>

text \<open>
  The tasks the browser runs, one at a time, each with the handler the controller
  attached. \<open>loadedmetadata\<close> is delivered once; a timeout, the fulfilment or rejection of
  a \<open>play()\<close> promise and a \<open>stop\<close> event of the recorder are delivered only while one
  is owed, and an event that is not owed leaves the state as it is. \<open>TimeUpdate t\<close> and
  \<open>MediaEnded t\<close> are the video reporting its position (and its end); both dispatch
  \<open>timeupdate\<close>.
\<close>

datatype event =
    LoadedMetadata
  | VideoError
  | Timeout
  | SeekedEvent
  | TimeUpdate real
  | MediaEnded real
  | PlayFulfilled nat
  | PlayRejected nat PlayError
  | DataAvailable Blob
  | StopEvent

text \<open>
  A dispatch of \<open>timeupdate\<close> calls the listeners attached when it starts, in order, each
  only if it is still attached when its turn comes.
\<close>

definition dispatch_timeupdate :: "env \<Rightarrow> Export \<Rightarrow> Export" where
  "dispatch_timeupdate env s =
    foldl (\<lambda>s' c. if c \<in> set (timeupdate s') then checkEnd env c s' else s') s (timeupdate s)"

text \<open>A dispatch of \<open>seeked\<close>: the listeners were added with \<open>once\<close>, so each is removed
  and called.\<close>

definition dispatch_seeked :: "env \<Rightarrow> Export \<Rightarrow> Export" where
  "dispatch_seeked env s = foldl (\<lambda>s' sg. onSeeked env sg s') (s\<lparr>seeked := []\<rparr>) (seeked s)"

definition step :: "env \<Rightarrow> event \<Rightarrow> Export \<Rightarrow> Export" where
  "step env e s =
    (case e of
      LoadedMetadata \<Rightarrow>
        if metadataLoaded s then s else startExport env (s\<lparr>metadataLoaded := True\<rparr>)
    | VideoError \<Rightarrow> onerror s
    | Timeout \<Rightarrow>
        if timeouts s = 0 then s else processNextSegment env (s\<lparr>timeouts := timeouts s - 1\<rparr>)
    | SeekedEvent \<Rightarrow> dispatch_seeked env s
    | TimeUpdate t \<Rightarrow> dispatch_timeupdate env (s\<lparr>video := (video s)\<lparr>currentTime := t\<rparr>\<rparr>)
    | MediaEnded t \<Rightarrow>
        dispatch_timeupdate env (s\<lparr>video := (video s)\<lparr>currentTime := t, ended := True\<rparr>\<rparr>)
    | PlayFulfilled c \<Rightarrow>
        if c \<in> set (playPromises s)
        then playThen env c (s\<lparr>playPromises := removeAll c (playPromises s)\<rparr>)
        else s
    | PlayRejected c error \<Rightarrow>
        if c \<in> set (playPromises s)
        then playCatch error (s\<lparr>playPromises := removeAll c (playPromises s)\<rparr>)
        else s
    | DataAvailable b \<Rightarrow> if mediaRecorder s = None then s else ondataavailable b s
    | StopEvent \<Rightarrow> if stopEvents s = 0 then s else onstop (s\<lparr>stopEvents := stopEvents s - 1\<rparr>))"

definition run :: "env \<Rightarrow> event list \<Rightarrow> Export \<Rightarrow> Export" where
  "run env es s = foldl (\<lambda>s' e. step env e s') s es"

text \<open>The state when \<open>exportProcessedVideo\<close> has made the video and returned its promise.\<close>

definition initial :: "EditSegment list \<Rightarrow> Export" where
  "initial segs =
    \<lparr>ex_segments = segs,
     video = \<lparr>currentTime = 0, playbackRate = 1, paused = True, ended = False,
              parentNode = True\<rparr>,
     mediaRecorder = None, mimeType = [], extension = [], chunks = [],
     currentSegmentIndex = 0, closures = [], timeupdate = [], seeked = [], timeouts = 0,
     playPromises = [], stopEvents = 0, metadataLoaded = False, promise = Pending,
     trace = []\<rparr>"

definition browser :: env where
  "browser =
    \<lparr>play_returns_promise = True, captureStream = True,
     isTypeSupported = (\<lambda>t. t = ''video/webm'')\<rparr>"

text \<open>An older browser, whose \<open>video.play()\<close> returns no promise.\<close>

definition legacy_browser :: env where
  "legacy_browser =
    \<lparr>play_returns_promise = False, captureStream = True,
     isTypeSupported = (\<lambda>t. t = ''video/webm'')\<rparr>"

subsection \<open>An export of scenario A\<close>

text \<open>
  Scenario A in a browser that supports \<open>video/webm\<close> only. \<open>scenario_P\<close>: the first
  segment is playing and its \<open>play()\<close> is confirmed. \<open>scenario_T\<close>: the position 5 was
  reported, the first segment is done, the deleted segment is skipped and the timeout is
  pending. \<open>scenario_W\<close>: the timeout ran and the controller waits for the seek to 8.
  \<open>scenario_D\<close>: the seek is complete and \<open>play()\<close> of the last segment is pending.
\<close>

definition scenario_P :: Export where
  "scenario_P = run browser [LoadedMetadata, PlayFulfilled 0] (initial scenario_A)"

definition scenario_T :: Export where
  "scenario_T = run browser [TimeUpdate 5] scenario_P"

definition scenario_W :: Export where
  "scenario_W = run browser [Timeout] scenario_T"

definition scenario_D :: Export where
  "scenario_D = run browser [SeekedEvent] scenario_W"

definition deletes :: "EditSegment list" where
  "deletes = [seg 0 1 1 DELETE, seg 1 2 1 DELETE, seg 2 3 1 DELETE]"

definition denied :: PlayError where
  "denied = \<lparr>err_name = ''NotAllowedError'', err_message = ''denied''\<rparr>"

definition aborted :: PlayError where
  "aborted = \<lparr>err_name = ''AbortError'', err_message = ''interrupted''\<rparr>"

section \<open>The locator\<close>

lemma getActiveSegment_Some:
  "getActiveSegment segs t = Some s \<Longrightarrow> s \<in> set segs \<and> start s \<le> t \<and> t < end' s"
  by (auto simp: getActiveSegment_def find_Some_iff)

lemma find_least_key:
  "sorted_wrt (\<lambda>a b. f a \<le> (f b :: real)) xs \<Longrightarrow> find P xs = Some x \<Longrightarrow>
   y \<in> set xs \<Longrightarrow> P y \<Longrightarrow> f x \<le> f y"
  by (induction xs) (auto split: if_splits)

text \<open>
  C5, as stated, fails: the locator takes the first match in the order of the array, not
  in the order of \<open>start\<close>. On the store \<open>[{5,10}, {2,8}]\<close> (which a refinement of the
  first segment of \<open>[{0,10}, {2,8}]\<close> to \<open>[{5,10}]\<close> leaves) the time 6 is located in
  \<open>{5,10}\<close>, while the earliest-starting segment that holds 6 is \<open>{2,8}\<close>.
\<close>

theorem getActiveSegment_unsorted_counterexample:
  "getActiveSegment [seg 5 10 1 KEEP, seg 2 8 1 KEEP] 6 = Some (seg 5 10 1 KEEP) \<and>
   locate_spec [seg 5 10 1 KEEP, seg 2 8 1 KEEP] 6 = Some (seg 2 8 1 KEEP)"
  by (simp add: getActiveSegment_def locate_spec_def seg_def)

text \<open>
  C5, amended: for every segment list that is sorted ascending by \<open>start\<close> and every time
  \<open>t\<close>, the locator returns the first segment in ascending start order whose half-open
  interval \<open>[start, end)\<close> holds \<open>t\<close>: it agrees with the specification's locator, its
  result holds \<open>t\<close>, no segment before it in the list holds \<open>t\<close>, and no segment that
  holds \<open>t\<close> (overlapping ones included) starts earlier. It returns none exactly when no
  segment's interval holds \<open>t\<close>.
\<close>

theorem getActiveSegment_sorted:
  assumes "sorted (map start segs)"
  shows "getActiveSegment segs t = locate_spec segs t \<and>
    (case getActiveSegment segs t of
      None \<Rightarrow> \<forall>s \<in> set segs. \<not> (start s \<le> t \<and> t < end' s)
    | Some s \<Rightarrow>
        start s \<le> t \<and> t < end' s \<and>
        (\<exists>i < length segs. segs ! i = s \<and>
           (\<forall>j < i. \<not> (start (segs ! j) \<le> t \<and> t < end' (segs ! j)))) \<and>
        (\<forall>s' \<in> set segs. start s' \<le> t \<and> t < end' s' \<longrightarrow> start s \<le> start s'))"
proof (intro conjI)
  show "getActiveSegment segs t = locate_spec segs t"
    using assms by (simp add: getActiveSegment_def locate_spec_def sort_key_id_if_sorted)
next
  show "case getActiveSegment segs t of
      None \<Rightarrow> \<forall>s \<in> set segs. \<not> (start s \<le> t \<and> t < end' s)
    | Some s \<Rightarrow>
        start s \<le> t \<and> t < end' s \<and>
        (\<exists>i < length segs. segs ! i = s \<and>
           (\<forall>j < i. \<not> (start (segs ! j) \<le> t \<and> t < end' (segs ! j)))) \<and>
        (\<forall>s' \<in> set segs. start s' \<le> t \<and> t < end' s' \<longrightarrow> start s \<le> start s')"
  proof (cases "getActiveSegment segs t")
    case None
    then have "\<forall>s \<in> set segs. \<not> (start s \<le> t \<and> t < end' s)"
      by (auto simp: getActiveSegment_def find_None_iff)
    with None show ?thesis by simp
  next
    case (Some s)
    have ordered: "sorted_wrt (\<lambda>a b. start a \<le> start b) segs"
      using assms by (simp add: sorted_map)
    from Some have found: "find (\<lambda>s. start s \<le> t \<and> t < end' s) segs = Some s"
      by (simp add: getActiveSegment_def)
    then obtain i where i: "i < length segs" "segs ! i = s" "start s \<le> t \<and> t < end' s"
      "\<forall>j<i. \<not> (start (segs ! j) \<le> t \<and> t < end' (segs ! j))"
      unfolding find_Some_iff by blast
    have "\<forall>s' \<in> set segs. start s' \<le> t \<and> t < end' s' \<longrightarrow> start s \<le> start s'"
      using find_least_key [OF ordered found] by blast
    with i Some show ?thesis by auto
  qed
qed

theorem getActiveSegment_sorted_witness:
  "sorted (map start [seg 0 5 1 KEEP, seg 2 8 1 KEEP, seg 9 12 1 KEEP]) \<and>
   getActiveSegment [seg 0 5 1 KEEP, seg 2 8 1 KEEP, seg 9 12 1 KEEP] 3 = Some (seg 0 5 1 KEEP) \<and>
   locate_spec [seg 0 5 1 KEEP, seg 2 8 1 KEEP, seg 9 12 1 KEEP] 3 = Some (seg 0 5 1 KEEP) \<and>
   getActiveSegment [seg 0 5 1 KEEP, seg 2 8 1 KEEP, seg 9 12 1 KEEP] (17 / 2) = None"
  using getActiveSegment_sorted [of "[seg 0 5 1 KEEP, seg 2 8 1 KEEP, seg 9 12 1 KEEP]" 3]
  by (simp add: getActiveSegment_def seg_def)

section \<open>The live playback controller\<close>

text \<open>
  C6, as stated, fails in two ways. The check of \<open>stopAt\<close> comes first in a tick: with
  scenario A and the breakpoint at 5 (the end of the first segment, as "play this segment"
  sets it), the tick at 5.01 stands in the deleted segment \<open>{5,8}\<close>, yet the controller
  pauses and returns; it writes no position and requests no further frame. And the
  policy applied is that of the segment the locator returns, the first one in the list
  that covers the position: on the store \<open>[{0,10,KEEP}, {5,8,DELETE}]\<close>, which is sorted
  by start and has no two overlapping KEEP segments, the tick at 6 with no breakpoint
  stands in the deleted segment \<open>{5,8}\<close>, is located in \<open>{0,10}\<close>, and only requests the
  next frame.
\<close>

theorem updateLoop_delete_counterexample:
  "getActiveSegment scenario_A 5.01 = Some (seg 5 8 1 DELETE) \<and>
   updateLoop (props_of scenario_A (Some 5)) (player_at 5.01 1) =
     \<lparr>videoRef = Some \<lparr>currentTime = 5.01, playbackRate = 1, paused = True, ended = False\<rparr>,
      isPlaying = False, currentSpeed = 1, currentAction = [], currentReason = [],
      effects = [VideoPause]\<rparr> \<and>
   action (seg 5 8 1 DELETE) = DELETE \<and>
   start (seg 5 8 1 DELETE) \<le> 6 \<and> (6 :: real) < end' (seg 5 8 1 DELETE) \<and>
   sorted (map start [seg 0 10 1 KEEP, seg 5 8 1 DELETE]) \<and>
   no_keep_overlap [seg 0 10 1 KEEP, seg 5 8 1 DELETE] \<and>
   getActiveSegment [seg 0 10 1 KEEP, seg 5 8 1 DELETE] 6 = Some (seg 0 10 1 KEEP) \<and>
   updateLoop (props_of [seg 0 10 1 KEEP, seg 5 8 1 DELETE] None) (player_at 6 1) =
     \<lparr>videoRef = Some \<lparr>currentTime = 6, playbackRate = 1, paused = False, ended = False\<rparr>,
      isPlaying = True, currentSpeed = 1, currentAction = ''CORE'', currentReason = [],
      effects = [RequestAnimationFrame]\<rparr>"
  by (simp add: updateLoop_def emit_def player_at_def props_of_def scenario_A_def seg_def
      getActiveSegment_def no_keep_overlap_def keep_overlap_def overlap_def)

text \<open>
  C6, amended: for every tick on which the breakpoint does not fire (\<open>stopAt\<close> is unset or
  the position is below it) and whose position is located in a segment with action
  DELETE (the first segment of the list that covers the position has action DELETE), the
  controller writes that segment's \<open>end + 0.01\<close> to the transport position and leaves the
  playback rate alone: the video differs from the one before in \<open>currentTime\<close> only,
  \<open>currentSpeed\<close> is unchanged, and the effects of the tick are the optional
  \<open>onTimeUpdate\<close>, the one write of the position and the request of the next frame. The
  instance below is scenario A: a tick at 6 writes 8.01.
\<close>

theorem updateLoop_delete:
  assumes "videoRef p = Some v"
    and "\<forall>t. stopAt props = Some t \<longrightarrow> currentTime v < t"
    and "getActiveSegment (segments props) (currentTime v) = Some sg"
    and "action sg = DELETE"
  shows "videoRef (updateLoop props p) = Some (v\<lparr>currentTime := end' sg + 0.01\<rparr>) \<and>
    currentSpeed (updateLoop props p) = currentSpeed p \<and>
    effects (updateLoop props p) =
      effects p @ (if onTimeUpdate props then [OnTimeUpdate (currentTime v)] else []) @
      [WriteCurrentTime (end' sg + 0.01), RequestAnimationFrame]"
  using assms by (cases "stopAt props") (auto simp: updateLoop_def emit_def Let_def)

theorem updateLoop_delete_witness:
  "getActiveSegment scenario_A 6 = Some (seg 5 8 1 DELETE) \<and>
   videoRef (updateLoop (props_of scenario_A None) (player_at 6 1)) =
     Some \<lparr>currentTime = 8.01, playbackRate = 1, paused = False, ended = False\<rparr> \<and>
   effects (updateLoop (props_of scenario_A None) (player_at 6 1)) =
     [WriteCurrentTime 8.01, RequestAnimationFrame]"
  using updateLoop_delete [of "player_at 6 1"
      "\<lparr>currentTime = 6, playbackRate = 1, paused = False, ended = False\<rparr>"
      "props_of scenario_A None" "seg 5 8 1 DELETE"]
  by (simp add: player_at_def props_of_def scenario_A_def seg_def getActiveSegment_def)

text \<open>
  C7, as stated, fails for the same reason: a segment \<open>{0,10}\<close> at speed 2 previewed with
  the breakpoint at its end 10 reaches the gap behind it at rate 2; the tick at 10.5
  pauses and returns, and the rate stays 2.
\<close>

theorem updateLoop_gap_counterexample:
  "getActiveSegment [seg 0 10 2 KEEP] 10.5 = None \<and>
   updateLoop (props_of [seg 0 10 2 KEEP] (Some 10)) (player_at 10.5 2) =
     \<lparr>videoRef = Some \<lparr>currentTime = 10.5, playbackRate = 2, paused = True, ended = False\<rparr>,
      isPlaying = False, currentSpeed = 2, currentAction = [], currentReason = [],
      effects = [VideoPause]\<rparr>"
  by (simp add: updateLoop_def emit_def player_at_def props_of_def seg_def
      getActiveSegment_def)

text \<open>
  C7, amended: for every tick on which the breakpoint does not fire and whose position is
  covered by no segment, the controller writes the playback rate 1 if and only if the
  rate is not 1 already, writes no position, and goes on to request the next frame: the
  gap plays as an implicit KEEP at speed 1 and raises nothing. The witness is scenario B
  at 11, entered at rate 2.
\<close>

theorem updateLoop_gap:
  assumes "videoRef p = Some v"
    and "\<forall>t. stopAt props = Some t \<longrightarrow> currentTime v < t"
    and "getActiveSegment (segments props) (currentTime v) = None"
  shows "videoRef (updateLoop props p) = Some (v\<lparr>playbackRate := 1\<rparr>) \<and>
    effects (updateLoop props p) =
      effects p @ (if onTimeUpdate props then [OnTimeUpdate (currentTime v)] else []) @
      (if playbackRate v \<noteq> 1 then [WritePlaybackRate 1] else []) @
      [RequestAnimationFrame]"
  using assms by (cases "stopAt props") (auto simp: updateLoop_def emit_def Let_def)

theorem updateLoop_gap_witness:
  "getActiveSegment scenario_B 11 = None \<and>
   videoRef (updateLoop (props_of scenario_B None) (player_at 11 2)) =
     Some \<lparr>currentTime = 11, playbackRate = 1, paused = False, ended = False\<rparr> \<and>
   effects (updateLoop (props_of scenario_B None) (player_at 11 2)) =
     [WritePlaybackRate 1, RequestAnimationFrame] \<and>
   effects (updateLoop (props_of scenario_B None) (player_at 11 1)) = [RequestAnimationFrame]"
  using updateLoop_gap [of "player_at 11 2"
      "\<lparr>currentTime = 11, playbackRate = 2, paused = False, ended = False\<rparr>"
      "props_of scenario_B None"]
    updateLoop_gap [of "player_at 11 1"
      "\<lparr>currentTime = 11, playbackRate = 1, paused = False, ended = False\<rparr>"
      "props_of scenario_B None"]
  by (simp add: player_at_def props_of_def scenario_B_def seg_def getActiveSegment_def)

text \<open>
  C8, as stated, fails: the jump target is \<open>end + 0.01\<close> with no bound. On a source of 12
  seconds whose last segment \<open>{5,12}\<close> is deleted, every segment lies within \<open>[0, 12)\<close>
  and the tick at 6 writes 12.01.
\<close>

theorem updateLoop_jump_counterexample:
  "list_all (\<lambda>s. 0 \<le> start s \<and> start s < end' s \<and> end' s \<le> 12)
     [seg 0 5 1 KEEP, seg 5 12 1 DELETE] \<and>
   effects (updateLoop (props_of [seg 0 5 1 KEEP, seg 5 12 1 DELETE] None) (player_at 6 1)) =
     [WriteCurrentTime 12.01, RequestAnimationFrame] \<and>
   (12.01 :: real) > 12"
  by (simp add: updateLoop_def emit_def player_at_def props_of_def seg_def
      getActiveSegment_def)

text \<open>
  C8, amended: for every tick and every segment list whose segments lie within
  \<open>[0, totalDuration)\<close>, a position that the tick writes is written on a mounted video,
  past the breakpoint check, and is \<open>end + 0.01\<close> of the segment in which the tick's
  position is located, a segment with action DELETE; it lies in
  \<open>(0, totalDuration + 0.01]\<close>, and it lies within \<open>[0, totalDuration]\<close> exactly when
  that segment ends at least 10ms before \<open>totalDuration\<close>.
\<close>

theorem updateLoop_jump_bound:
  assumes "\<forall>s \<in> set (segments props). 0 \<le> start s \<and> start s < end' s \<and> end' s \<le> totalDuration"
    and "effects (updateLoop props p) = effects p @ es"
    and "WriteCurrentTime x \<in> set es"
  shows "\<exists>v sg. videoRef p = Some v \<and>
    (\<forall>t. stopAt props = Some t \<longrightarrow> currentTime v < t) \<and>
    getActiveSegment (segments props) (currentTime v) = Some sg \<and>
    action sg = DELETE \<and> x = end' sg + 0.01 \<and>
    0 < x \<and> x \<le> totalDuration + 0.01 \<and>
    (x \<le> totalDuration \<longleftrightarrow> end' sg \<le> totalDuration - 0.01)"
proof (cases "videoRef p")
  case None
  with assms show ?thesis by (simp add: updateLoop_def)
next
  case (Some v)
  note mounted = this
  show ?thesis
  proof (cases "getActiveSegment (segments props) (currentTime v)")
    case None
    with mounted assms(2,3) show ?thesis
      by (cases "stopAt props") (auto simp: updateLoop_def emit_def Let_def split: if_splits)
  next
    case (Some sg)
    note located = getActiveSegment_Some [OF Some]
    with assms(1) have bounds: "0 \<le> start sg" "start sg < end' sg" "end' sg \<le> totalDuration"
      by auto
    from Some mounted assms(2,3)
    have jump: "(\<forall>t. stopAt props = Some t \<longrightarrow> currentTime v < t) \<and>
        action sg = DELETE \<and> x = end' sg + 0.01"
      by (cases "stopAt props") (auto simp: updateLoop_def emit_def Let_def split: if_splits)
    with bounds have "0 < x \<and> x \<le> totalDuration + 0.01 \<and>
        (x \<le> totalDuration \<longleftrightarrow> end' sg \<le> totalDuration - 0.01)"
      by auto
    with mounted Some jump show ?thesis by blast
  qed
qed

theorem updateLoop_jump_bound_witness:
  "list_all (\<lambda>s. 0 \<le> start s \<and> start s < end' s \<and> end' s \<le> 12) scenario_A \<and>
   effects (updateLoop (props_of scenario_A None) (player_at 6 1)) =
     [] @ [WriteCurrentTime 8.01, RequestAnimationFrame] \<and>
   getActiveSegment scenario_A 6 = Some (seg 5 8 1 DELETE) \<and>
   (8.01 :: real) = end' (seg 5 8 1 DELETE) + 0.01 \<and>
   (0 :: real) < 8.01 \<and> (8.01 :: real) \<le> 12 + 0.01 \<and> (8.01 :: real) \<le> 12"
proof -
  have inv: "\<forall>s \<in> set (segments (props_of scenario_A None)).
      0 \<le> start s \<and> start s < end' s \<and> end' s \<le> 12"
    by (simp add: props_of_def scenario_A_def seg_def)
  have eff: "effects (updateLoop (props_of scenario_A None) (player_at 6 1)) =
      effects (player_at 6 1) @ [WriteCurrentTime 8.01, RequestAnimationFrame]"
    by (simp add: updateLoop_def emit_def player_at_def props_of_def scenario_A_def seg_def
        getActiveSegment_def)
  have "WriteCurrentTime 8.01 \<in> set [WriteCurrentTime 8.01, RequestAnimationFrame]"
    by simp
  from updateLoop_jump_bound [OF inv eff this]
  have "getActiveSegment scenario_A 6 = Some (seg 5 8 1 DELETE) \<and>
      (8.01 :: real) = end' (seg 5 8 1 DELETE) + 0.01"
    by (simp add: props_of_def player_at_def scenario_A_def seg_def getActiveSegment_def)
  with inv eff show ?thesis
    by (simp add: props_of_def player_at_def list_all_iff)
qed

section \<open>Segment refinement\<close>











section \<open>The export controller\<close>

subsection \<open>The promise settles once\<close>

text \<open>No function of the export but \<open>resolve\<close> and \<open>reject\<close> writes the promise, and they
  write it only while it is pending.\<close>

lemma promise_MediaRecorder_stop: "promise (MediaRecorder_stop s) = promise s"
  by (simp add: MediaRecorder_stop_def issue_def split: option.split)

lemma promise_cleanup: "promise (cleanup s) = promise s"
  by (simp add: cleanup_def Let_def issue_def promise_MediaRecorder_stop split: option.split)

lemma promise_onSeeked: "promise (onSeeked env sg s) = promise s"
  by (simp add: onSeeked_def Let_def issue_def)

lemma promise_processNextSegment: "promise (processNextSegment env s) = promise s"
  by (simp add: processNextSegment_def Let_def issue_def promise_MediaRecorder_stop
      promise_onSeeked)

lemma promise_pauseDetachIncrement: "promise (pauseDetachIncrement c s) = promise s"
  by (simp add: pauseDetachIncrement_def Let_def issue_def)

lemma promise_checkEnd: "promise (checkEnd env c s) = promise s"
  by (simp add: checkEnd_def promise_processNextSegment promise_pauseDetachIncrement)

lemma promise_playThen: "promise (playThen env c s) = promise s"
  by (simp add: playThen_def Let_def promise_processNextSegment promise_pauseDetachIncrement)

lemma promise_reject: "promise s \<noteq> Pending \<Longrightarrow> promise (reject m s) = promise s"
  by (simp add: reject_def issue_def)

lemma promise_resolve: "promise s \<noteq> Pending \<Longrightarrow> promise (resolve b x s) = promise s"
  by (simp add: resolve_def issue_def)

lemma promise_timeupdate_fold:
  "promise (foldl (\<lambda>s' c. if c \<in> set (timeupdate s') then checkEnd env c s' else s') s cs) =
   promise s"
  by (induction cs arbitrary: s) (simp_all add: promise_checkEnd)

lemma promise_seeked_fold:
  "promise (foldl (\<lambda>s' sg. onSeeked env sg s') s gs) = promise s"
  by (induction gs arbitrary: s) (simp_all add: promise_onSeeked)

lemma promise_startExport:
  "promise s \<noteq> Pending \<Longrightarrow> promise (startExport env s) = promise s"
  by (simp add: startExport_def Let_def promise_reject promise_cleanup
      promise_processNextSegment issue_def)

lemma promise_step: "promise s \<noteq> Pending \<Longrightarrow> promise (step env e s) = promise s"
  by (cases e)
    (simp_all add: step_def promise_startExport onerror_def promise_reject promise_cleanup
      promise_processNextSegment dispatch_seeked_def promise_seeked_fold
      dispatch_timeupdate_def promise_timeupdate_fold promise_playThen playCatch_def
      ondataavailable_def onstop_def promise_resolve Let_def)

lemma promise_run: "promise s \<noteq> Pending \<Longrightarrow> promise (run env es s) = promise s"
  unfolding run_def by (induction es arbitrary: s) (simp_all add: promise_step)

subsection \<open>Closures stay\<close>

text \<open>The list of closures only grows at its end, and the only write into it is the
  \<open>isPlaying = true\<close> of a closure's own \<open>then\<close> callback (or of \<open>onSeeked\<close> itself where
  \<open>play()\<close> returns no promise).\<close>

lemma closures_MediaRecorder_stop: "closures (MediaRecorder_stop s) = closures s"
  by (simp add: MediaRecorder_stop_def issue_def split: option.split)

lemma closures_cleanup: "closures (cleanup s) = closures s"
  by (simp add: cleanup_def Let_def issue_def closures_MediaRecorder_stop split: option.split)

lemma closures_reject: "closures (reject m s) = closures s"
  by (simp add: reject_def issue_def)

lemma closures_resolve: "closures (resolve b x s) = closures s"
  by (simp add: resolve_def issue_def)

lemma closures_pauseDetachIncrement: "closures (pauseDetachIncrement c s) = closures s"
  by (simp add: pauseDetachIncrement_def Let_def issue_def)

lemma closures_onSeeked: "prefix (closures s) (closures (onSeeked env sg s))"
  by (simp add: onSeeked_def Let_def issue_def)

lemma closures_processNextSegment: "prefix (closures s) (closures (processNextSegment env s))"
  using closures_onSeeked [of "issue (Progress (progress (currentSegmentIndex s) (length (ex_segments s)))) s" env]
  by (simp add: processNextSegment_def Let_def issue_def closures_MediaRecorder_stop)

lemma closures_checkEnd: "prefix (closures s) (closures (checkEnd env c s))"
  using closures_processNextSegment [of "pauseDetachIncrement c s" env]
  by (simp add: checkEnd_def closures_pauseDetachIncrement)

lemma closures_timeupdate_fold:
  "prefix (closures s)
    (closures (foldl (\<lambda>s' c. if c \<in> set (timeupdate s') then checkEnd env c s' else s') s cs))"
proof (induction cs arbitrary: s)
  case Nil
  show ?case by simp
next
  case (Cons c cs)
  have "prefix (closures s) (closures (if c \<in> set (timeupdate s) then checkEnd env c s else s))"
    by (simp add: closures_checkEnd)
  from prefix_order.trans [OF this Cons.IH] show ?case by simp
qed

lemma closures_seeked_fold:
  "prefix (closures s) (closures (foldl (\<lambda>s' sg. onSeeked env sg s') s gs))"
proof (induction gs arbitrary: s)
  case Nil
  show ?case by simp
next
  case (Cons g gs)
  from prefix_order.trans [OF closures_onSeeked Cons.IH] show ?case by simp
qed

lemma closures_startExport: "prefix (closures s) (closures (startExport env s))"
proof -
  have "prefix (closures s) (closures (processNextSegment env (issue RecorderStart (s\<lparr>mimeType := mt, extension := ext, mediaRecorder := r\<rparr>))))"
    for mt ext r
    using closures_processNextSegment [of "issue RecorderStart (s\<lparr>mimeType := mt, extension := ext, mediaRecorder := r\<rparr>)" env]
    by (simp add: issue_def)
  then show ?thesis
    by (simp add: startExport_def closures_reject closures_cleanup)
qed

lemma closures_playThen:
  "c \<ge> length (closures s) \<and> closures (playThen env c s) = closures s \<or>
   c < length (closures s) \<and>
   prefix ((closures s)[c := (closures s ! c)\<lparr>cl_isPlaying := True\<rparr>])
     (closures (playThen env c s))"
  using closures_processNextSegment [of "pauseDetachIncrement c
      (s\<lparr>closures := (closures s)[c := (closures s ! c)\<lparr>cl_isPlaying := True\<rparr>]\<rparr>)" env]
  by (simp add: playThen_def Let_def closures_pauseDetachIncrement)

text \<open>A closure keeps its place and its content.\<close>

lemma prefix_nth: "prefix xs ys \<Longrightarrow> c < length xs \<Longrightarrow> c < length ys \<and> ys ! c = xs ! c"
  by (auto simp: prefix_def nth_append)

lemma closure_step:
  assumes "c < length (closures s)" and "e \<noteq> PlayFulfilled c"
  shows "c < length (closures (step env e s)) \<and> closures (step env e s) ! c = closures s ! c"
proof (cases e)
  case LoadedMetadata
  with assms(1) show ?thesis
    using prefix_nth [OF closures_startExport [of "s\<lparr>metadataLoaded := True\<rparr>" env], of c]
    by (simp add: step_def)
next
  case VideoError
  with assms(1) show ?thesis
    by (simp add: step_def onerror_def closures_reject closures_cleanup)
next
  case Timeout
  with assms(1) show ?thesis
    using prefix_nth [OF closures_processNextSegment [of "s\<lparr>timeouts := timeouts s - 1\<rparr>" env], of c]
    by (simp add: step_def)
next
  case SeekedEvent
  with assms(1) show ?thesis
    using prefix_nth [OF closures_seeked_fold [of "s\<lparr>seeked := []\<rparr>" env "seeked s"], of c]
    by (simp add: step_def dispatch_seeked_def)
next
  case (TimeUpdate t)
  with assms(1) show ?thesis
    using prefix_nth [OF closures_timeupdate_fold
        [of "s\<lparr>video := (video s)\<lparr>currentTime := t\<rparr>\<rparr>" env "timeupdate s"], of c]
    by (simp add: step_def dispatch_timeupdate_def)
next
  case (MediaEnded t)
  with assms(1) show ?thesis
    using prefix_nth [OF closures_timeupdate_fold
        [of "s\<lparr>video := (video s)\<lparr>currentTime := t, ended := True\<rparr>\<rparr>" env "timeupdate s"], of c]
    by (simp add: step_def dispatch_timeupdate_def)
next
  case (PlayFulfilled c')
  with assms(2) have ne: "c \<noteq> c'" by auto
  let ?s = "s\<lparr>playPromises := removeAll c' (playPromises s)\<rparr>"
  have "c < length (closures (playThen env c' ?s)) \<and> closures (playThen env c' ?s) ! c = closures s ! c"
    using closures_playThen [where c = c' and s = ?s and env = env] assms(1) ne
    by (auto dest!: prefix_nth [where c = c])
  with PlayFulfilled assms(1) show ?thesis by (simp add: step_def)
next
  case (PlayRejected c' err)
  with assms(1) show ?thesis
    by (simp add: step_def playCatch_def closures_reject closures_cleanup)
next
  case (DataAvailable b)
  with assms(1) show ?thesis by (simp add: step_def ondataavailable_def)
next
  case StopEvent
  with assms(1) show ?thesis
    by (simp add: step_def onstop_def Let_def closures_resolve closures_cleanup)
qed

lemma closure_run:
  assumes "c < length (closures s)" and "PlayFulfilled c \<notin> set es"
  shows "c < length (closures (run env es s)) \<and> closures (run env es s) ! c = closures s ! c"
  using assms unfolding run_def
proof (induction es arbitrary: s)
  case Nil
  then show ?case by simp
next
  case (Cons e es)
  then have "c < length (closures (step env e s)) \<and> closures (step env e s) ! c = closures s ! c"
    using closure_step [where c = c and s = s and e = e and env = env] by auto
  with Cons.IH [of "step env e s"] Cons.prems show ?case by simp
qed

subsection \<open>Evaluation of the export of scenario A\<close>

lemmas export_defs = run_def step_def initial_def browser_def scenario_A_def seg_def
  startExport_def processNextSegment_def onSeeked_def checkEnd_def playThen_def playCatch_def
  pauseDetachIncrement_def dispatch_timeupdate_def dispatch_seeked_def cleanup_def
  MediaRecorder_stop_def reject_def resolve_def issue_def onstop_def onerror_def
  ondataavailable_def progress_def Let_def

lemma scenario_P_value:
  "scenario_P =
    \<lparr>ex_segments = scenario_A,
     video = \<lparr>currentTime = 0, playbackRate = 1, paused = False, ended = False, parentNode = True\<rparr>,
     mediaRecorder = Some \<lparr>rec_state = Recording, rec_mimeType = ''video/webm''\<rparr>,
     mimeType = ''video/webm'', extension = ''webm'', chunks = [],
     currentSegmentIndex = 0,
     closures = [\<lparr>cl_seg = seg 0 5 1 KEEP, cl_isPlaying = True\<rparr>],
     timeupdate = [0], seeked = [], timeouts = 0, playPromises = [], stopEvents = 0,
     metadataLoaded = True, promise = Pending,
     trace = [RecorderStart, Progress 0, SetPlaybackRate 1, AddTimeupdateListener 0, Play]\<rparr>"
  unfolding scenario_P_def by (simp add: export_defs round_def)

lemma scenario_T_value:
  "scenario_T =
    \<lparr>ex_segments = scenario_A,
     video = \<lparr>currentTime = 5, playbackRate = 1, paused = True, ended = False, parentNode = True\<rparr>,
     mediaRecorder = Some \<lparr>rec_state = Recording, rec_mimeType = ''video/webm''\<rparr>,
     mimeType = ''video/webm'', extension = ''webm'', chunks = [],
     currentSegmentIndex = 2,
     closures = [\<lparr>cl_seg = seg 0 5 1 KEEP, cl_isPlaying = True\<rparr>],
     timeupdate = [], seeked = [], timeouts = 1, playPromises = [], stopEvents = 0,
     metadataLoaded = True, promise = Pending,
     trace = [RecorderStart, Progress 0, SetPlaybackRate 1, AddTimeupdateListener 0, Play,
       Pause, RemoveTimeupdateListener 0, Progress 33, SetTimeout]\<rparr>"
  unfolding scenario_T_def scenario_P_value
  by (simp add: export_defs round_def)

lemma scenario_W_value:
  "scenario_W =
    \<lparr>ex_segments = scenario_A,
     video = \<lparr>currentTime = 8, playbackRate = 1, paused = True, ended = False, parentNode = True\<rparr>,
     mediaRecorder = Some \<lparr>rec_state = Recording, rec_mimeType = ''video/webm''\<rparr>,
     mimeType = ''video/webm'', extension = ''webm'', chunks = [],
     currentSegmentIndex = 2,
     closures = [\<lparr>cl_seg = seg 0 5 1 KEEP, cl_isPlaying = True\<rparr>],
     timeupdate = [], seeked = [seg 8 12 2 KEEP], timeouts = 0, playPromises = [], stopEvents = 0,
     metadataLoaded = True, promise = Pending,
     trace = [RecorderStart, Progress 0, SetPlaybackRate 1, AddTimeupdateListener 0, Play,
       Pause, RemoveTimeupdateListener 0, Progress 33, SetTimeout, Progress 67,
       AddSeekedListener, SetCurrentTime 8]\<rparr>"
  unfolding scenario_W_def scenario_T_value
  by (simp add: export_defs round_def)

lemma scenario_D_value:
  "scenario_D =
    \<lparr>ex_segments = scenario_A,
     video = \<lparr>currentTime = 8, playbackRate = 2, paused = False, ended = False, parentNode = True\<rparr>,
     mediaRecorder = Some \<lparr>rec_state = Recording, rec_mimeType = ''video/webm''\<rparr>,
     mimeType = ''video/webm'', extension = ''webm'', chunks = [],
     currentSegmentIndex = 2,
     closures = [\<lparr>cl_seg = seg 0 5 1 KEEP, cl_isPlaying = True\<rparr>,
                 \<lparr>cl_seg = seg 8 12 2 KEEP, cl_isPlaying = False\<rparr>],
     timeupdate = [1], seeked = [], timeouts = 0, playPromises = [1], stopEvents = 0,
     metadataLoaded = True, promise = Pending,
     trace = [RecorderStart, Progress 0, SetPlaybackRate 1, AddTimeupdateListener 0, Play,
       Pause, RemoveTimeupdateListener 0, Progress 33, SetTimeout, Progress 67,
       AddSeekedListener, SetCurrentTime 8, SetPlaybackRate 2, AddTimeupdateListener 1, Play]\<rparr>"
  unfolding scenario_D_def scenario_W_value
  by (simp add: export_defs round_def)

lemma scenario_D_from_W: "step browser SeekedEvent scenario_W = scenario_D"
  by (simp add: scenario_D_def run_def)

subsection \<open>Failure of \<open>play()\<close>\<close>

lemma trace_cleanup:
  "trace (cleanup s) = trace s @ (if parentNode (video s) then [RemoveChild] else []) @
     (if (\<exists>r. mediaRecorder s = Some r \<and> rec_state r = Recording) then [RecorderStop] else [])"
  by (cases "mediaRecorder s")
    (auto simp: cleanup_def MediaRecorder_stop_def issue_def Let_def
      intro: RecordingState.exhaust)

lemma released_cleanup:
  "\<not> parentNode (video (cleanup s)) \<and>
   (\<forall>r. mediaRecorder (cleanup s) = Some r \<longrightarrow> rec_state r = Inactive)"
  by (cases "mediaRecorder s")
    (auto simp: cleanup_def MediaRecorder_stop_def issue_def Let_def)

text \<open>
  C1: while the export is under way (its promise is pending) and the \<open>play()\<close> promise of
  a KEEP segment's closure is pending, a rejection of that promise with an error whose
  name is not \<open>AbortError\<close> rejects the export with the message
  \<open>Playback failed during export: \<close> followed by the error's message; before the call of
  \<open>reject\<close> the video is removed from the document (if it was attached) and the recorder
  is stopped (if it was recording), so that afterwards the video is detached and the
  recorder inactive; and whatever events follow, the promise stays rejected, so that no
  artifact is delivered: the \<open>stop\<close> event that the stopped recorder still fires calls
  \<open>resolve\<close> on a settled promise. A rejection named \<open>AbortError\<close> only takes the promise
  from the pending ones: the export goes on. The instance below is the scenario D of the
  specification: \<open>play()\<close> of the second KEEP segment of scenario A is refused.
\<close>

theorem play_rejected:
  assumes "promise s = Pending" and "c \<in> set (playPromises s)"
  shows
    "(err_name error \<noteq> ''AbortError'' \<longrightarrow>
       (let s' = step env (PlayRejected c error) s;
            msg = ''Playback failed during export: '' @ err_message error
        in promise s' = Rejected msg \<and>
           \<not> parentNode (video s') \<and>
           (\<forall>r. mediaRecorder s' = Some r \<longrightarrow> rec_state r = Inactive) \<and>
           trace s' = trace s @
             (if parentNode (video s) then [RemoveChild] else []) @
             (if (\<exists>r. mediaRecorder s = Some r \<and> rec_state r = Recording)
              then [RecorderStop] else []) @
             [CallReject msg] \<and>
           (\<forall>es. promise (run env es s') = Rejected msg))) \<and>
     (err_name error = ''AbortError'' \<longrightarrow>
       step env (PlayRejected c error) s = s\<lparr>playPromises := removeAll c (playPromises s)\<rparr>)"
proof (intro conjI impI)
  assume abort: "err_name error = ''AbortError''"
  with assms(2) show
    "step env (PlayRejected c error) s = s\<lparr>playPromises := removeAll c (playPromises s)\<rparr>"
    by (simp add: step_def playCatch_def)
next
  assume fatal: "err_name error \<noteq> ''AbortError''"
  let ?u = "s\<lparr>playPromises := removeAll c (playPromises s)\<rparr>"
  let ?msg = "''Playback failed during export: '' @ err_message error"
  have s': "step env (PlayRejected c error) s = reject ?msg (cleanup ?u)"
    using assms(2) fatal by (simp add: step_def playCatch_def)
  have pending: "promise (cleanup ?u) = Pending"
    using assms(1) by (simp add: promise_cleanup)
  have rejected: "promise (reject ?msg (cleanup ?u)) = Rejected ?msg"
    using pending by (simp add: reject_def issue_def)
  have released: "\<not> parentNode (video (reject ?msg (cleanup ?u))) \<and>
      (\<forall>r. mediaRecorder (reject ?msg (cleanup ?u)) = Some r \<longrightarrow> rec_state r = Inactive)"
    using released_cleanup [of ?u] by (simp add: reject_def issue_def)
  have order: "trace (reject ?msg (cleanup ?u)) = trace s @
      (if parentNode (video s) then [RemoveChild] else []) @
      (if (\<exists>r. mediaRecorder s = Some r \<and> rec_state r = Recording)
       then [RecorderStop] else []) @ [CallReject ?msg]"
    using trace_cleanup [of ?u] by (simp add: reject_def issue_def)
  have stays: "\<forall>es. promise (run env es (reject ?msg (cleanup ?u))) = Rejected ?msg"
    using promise_run [of "reject ?msg (cleanup ?u)" env] rejected by simp
  show "let s' = step env (PlayRejected c error) s;
            msg = ''Playback failed during export: '' @ err_message error
        in promise s' = Rejected msg \<and>
           \<not> parentNode (video s') \<and>
           (\<forall>r. mediaRecorder s' = Some r \<longrightarrow> rec_state r = Inactive) \<and>
           trace s' = trace s @
             (if parentNode (video s) then [RemoveChild] else []) @
             (if (\<exists>r. mediaRecorder s = Some r \<and> rec_state r = Recording)
              then [RecorderStop] else []) @
             [CallReject msg] \<and>
           (\<forall>es. promise (run env es s') = Rejected msg)"
    unfolding Let_def s' using rejected released order stays by blast
qed

theorem play_rejected_witness:
  "promise scenario_D = Pending \<and> 1 \<in> set (playPromises scenario_D) \<and>
   promise (step browser (PlayRejected 1 denied) scenario_D) =
     Rejected ''Playback failed during export: denied'' \<and>
   \<not> parentNode (video (step browser (PlayRejected 1 denied) scenario_D)) \<and>
   mediaRecorder (step browser (PlayRejected 1 denied) scenario_D) =
     Some \<lparr>rec_state = Inactive, rec_mimeType = ''video/webm''\<rparr> \<and>
   trace (step browser (PlayRejected 1 denied) scenario_D) = trace scenario_D @
     [RemoveChild, RecorderStop, CallReject ''Playback failed during export: denied''] \<and>
   (\<forall>es. promise (run browser es (step browser (PlayRejected 1 denied) scenario_D)) =
     Rejected ''Playback failed during export: denied'') \<and>
   step browser (PlayRejected 1 aborted) scenario_D = scenario_D\<lparr>playPromises := []\<rparr>"
  using play_rejected [of scenario_D 1 denied browser]
    play_rejected [of scenario_D 1 aborted browser]
  by (simp add: scenario_D_value denied_def aborted_def Let_def)
    (simp add: step_def playCatch_def cleanup_def MediaRecorder_stop_def reject_def issue_def Let_def)

subsection \<open>The position monitor\<close>

lemma onSeeked_promise:
  assumes "play_returns_promise env"
  shows "closures (onSeeked env sg s) = closures s @ [\<lparr>cl_seg = sg, cl_isPlaying = False\<rparr>]"
    and "length (closures s) \<in> set (timeupdate (onSeeked env sg s))"
    and "length (closures s) \<in> set (playPromises (onSeeked env sg s))"
  using assms by (simp_all add: onSeeked_def Let_def issue_def)

lemma checkEnd_unarmed:
  "\<not> (c < length (closures s) \<and> cl_isPlaying (closures s ! c)) \<Longrightarrow> checkEnd env c s = s"
  by (auto simp: checkEnd_def)

lemma pauseDetachIncrement_fields:
  "paused (video (pauseDetachIncrement c s)) \<and>
   c \<notin> set (timeupdate (pauseDetachIncrement c s)) \<and>
   currentSegmentIndex (pauseDetachIncrement c s) = currentSegmentIndex s + 1 \<and>
   trace (pauseDetachIncrement c s) = trace s @ [Pause, RemoveTimeupdateListener c]"
  by (simp add: pauseDetachIncrement_def Let_def issue_def)

text \<open>
  C2, as stated, fails where \<open>play()\<close> returns no promise: \<open>onSeeked\<close> then sets
  \<open>isPlaying\<close> at once (the fallback for older browsers), so there is no confirmation to
  wait for and no re-check. In an export of scenario A in such a browser, the report of
  the position 5 right after the start ends the first segment, with no confirmation of
  any \<open>play()\<close> among the events: the transport is paused, the monitor detached and the
  index advanced.
\<close>

theorem checkEnd_fallback_counterexample:
  "\<not> play_returns_promise legacy_browser \<and>
   PlayFulfilled 0 \<notin> set [LoadedMetadata, TimeUpdate 5] \<and>
   closures (run legacy_browser [LoadedMetadata] (initial scenario_A)) =
     [\<lparr>cl_seg = seg 0 5 1 KEEP, cl_isPlaying = True\<rparr>] \<and>
   playPromises (run legacy_browser [LoadedMetadata] (initial scenario_A)) = [] \<and>
   currentSegmentIndex (run legacy_browser [LoadedMetadata] (initial scenario_A)) = 0 \<and>
   currentSegmentIndex (run legacy_browser [LoadedMetadata, TimeUpdate 5] (initial scenario_A)) = 2 \<and>
   paused (video (run legacy_browser [LoadedMetadata, TimeUpdate 5] (initial scenario_A))) \<and>
   timeupdate (run legacy_browser [LoadedMetadata, TimeUpdate 5] (initial scenario_A)) = [] \<and>
   trace (run legacy_browser [LoadedMetadata, TimeUpdate 5] (initial scenario_A)) =
     [RecorderStart, Progress 0, SetPlaybackRate 1, AddTimeupdateListener 0, Play,
      Pause, RemoveTimeupdateListener 0, Progress 33, SetTimeout]"
  by (simp add: run_def step_def initial_def legacy_browser_def scenario_A_def seg_def
      startExport_def processNextSegment_def onSeeked_def checkEnd_def
      pauseDetachIncrement_def dispatch_timeupdate_def issue_def progress_def round_def
      Let_def)

text \<open>
  C2, amended: where \<open>play()\<close> returns a promise. A \<open>checkEnd\<close> whose \<open>isPlaying\<close> is
  false returns at once, whatever the position. \<open>onSeeked\<close> makes the closure with
  \<open>isPlaying\<close> false, attaches its \<open>checkEnd\<close> and keeps the promise; through every
  sequence of events without the fulfilment of that promise the flag stays false and
  \<open>checkEnd\<close> stays without effect. When the promise is fulfilled the flag is set and
  the stop condition is checked once, at once: if the position has reached the segment's
  end the transport is paused, \<open>checkEnd\<close> is detached, the index is incremented and
  \<open>processNextSegment\<close> runs; otherwise only the flag is set. In the instance below the
  position 12.5, past the end 12 of the last segment of scenario A, is reported before
  \<open>play()\<close> is confirmed: nothing happens until the confirmation, which then ends the
  segment and the recording.
\<close>

theorem checkEnd_armed:
  "(\<not> (c < length (closures s) \<and> cl_isPlaying (closures s ! c)) \<longrightarrow> checkEnd env c s = s) \<and>
   (play_returns_promise env \<longrightarrow>
      (let s' = onSeeked env sg s; k = length (closures s) in
        closures s' = closures s @ [\<lparr>cl_seg = sg, cl_isPlaying = False\<rparr>] \<and>
        k \<in> set (timeupdate s') \<and> k \<in> set (playPromises s') \<and>
        (\<forall>es. PlayFulfilled k \<notin> set es \<longrightarrow>
           \<not> cl_isPlaying (closures (run env es s') ! k) \<and>
           checkEnd env k (run env es s') = run env es s'))) \<and>
   (c \<in> set (playPromises s) \<and> c < length (closures s) \<longrightarrow>
      (let s1 = s\<lparr>playPromises := removeAll c (playPromises s),
                  closures := (closures s)[c := (closures s ! c)\<lparr>cl_isPlaying := True\<rparr>]\<rparr>
       in step env (PlayFulfilled c) s =
            (if currentTime (video s) \<ge> end' (cl_seg (closures s ! c))
             then processNextSegment env (pauseDetachIncrement c s1) else s1) \<and>
          paused (video (pauseDetachIncrement c s1)) \<and>
          c \<notin> set (timeupdate (pauseDetachIncrement c s1)) \<and>
          currentSegmentIndex (pauseDetachIncrement c s1) = currentSegmentIndex s + 1 \<and>
          trace (pauseDetachIncrement c s1) = trace s @ [Pause, RemoveTimeupdateListener c]))"
proof (intro conjI impI)
  assume "\<not> (c < length (closures s) \<and> cl_isPlaying (closures s ! c))"
  then show "checkEnd env c s = s" by (rule checkEnd_unarmed)
next
  assume promise: "play_returns_promise env"
  define s' where "s' = onSeeked env sg s"
  define k where "k = length (closures s)"
  note made = onSeeked_promise [OF promise, where sg = sg and s = s, folded s'_def k_def]
  have k: "k < length (closures s')" "\<not> cl_isPlaying (closures s' ! k)"
    by (simp_all add: made k_def)
  have "\<not> cl_isPlaying (closures (run env es s') ! k) \<and>
      checkEnd env k (run env es s') = run env es s'"
    if "PlayFulfilled k \<notin> set es" for es
  proof -
    from closure_run [OF k(1) that, of env] k(2)
    have "\<not> cl_isPlaying (closures (run env es s') ! k)" by simp
    then show ?thesis by (simp add: checkEnd_unarmed)
  qed
  with made show "let s' = onSeeked env sg s; k = length (closures s) in
        closures s' = closures s @ [\<lparr>cl_seg = sg, cl_isPlaying = False\<rparr>] \<and>
        k \<in> set (timeupdate s') \<and> k \<in> set (playPromises s') \<and>
        (\<forall>es. PlayFulfilled k \<notin> set es \<longrightarrow>
           \<not> cl_isPlaying (closures (run env es s') ! k) \<and>
           checkEnd env k (run env es s') = run env es s')"
    unfolding Let_def s'_def [symmetric] k_def [symmetric] by blast
next
  assume "c \<in> set (playPromises s) \<and> c < length (closures s)"
  then show "let s1 = s\<lparr>playPromises := removeAll c (playPromises s),
                  closures := (closures s)[c := (closures s ! c)\<lparr>cl_isPlaying := True\<rparr>]\<rparr>
       in step env (PlayFulfilled c) s =
            (if currentTime (video s) \<ge> end' (cl_seg (closures s ! c))
             then processNextSegment env (pauseDetachIncrement c s1) else s1) \<and>
          paused (video (pauseDetachIncrement c s1)) \<and>
          c \<notin> set (timeupdate (pauseDetachIncrement c s1)) \<and>
          currentSegmentIndex (pauseDetachIncrement c s1) = currentSegmentIndex s + 1 \<and>
          trace (pauseDetachIncrement c s1) = trace s @ [Pause, RemoveTimeupdateListener c]"
    unfolding Let_def
    by (simp add: pauseDetachIncrement_fields) (simp add: step_def playThen_def Let_def)
qed

theorem checkEnd_armed_witness:
  "play_returns_promise browser \<and>
   onSeeked browser (seg 8 12 2 KEEP) (scenario_W\<lparr>seeked := []\<rparr>) = scenario_D \<and>
   closures scenario_D ! 1 = \<lparr>cl_seg = seg 8 12 2 KEEP, cl_isPlaying = False\<rparr> \<and>
   run browser [TimeUpdate 12.5] scenario_D =
     scenario_D\<lparr>video := (video scenario_D)\<lparr>currentTime := 12.5\<rparr>\<rparr> \<and>
   checkEnd browser 1 (run browser [TimeUpdate 12.5] scenario_D) =
     run browser [TimeUpdate 12.5] scenario_D \<and>
   step browser (PlayFulfilled 1) (run browser [TimeUpdate 12.5] scenario_D) =
     scenario_D\<lparr>video := (video scenario_D)\<lparr>currentTime := 12.5, paused := True\<rparr>,
       closures := [\<lparr>cl_seg = seg 0 5 1 KEEP, cl_isPlaying = True\<rparr>,
                    \<lparr>cl_seg = seg 8 12 2 KEEP, cl_isPlaying = True\<rparr>],
       timeupdate := [], playPromises := [], currentSegmentIndex := 3,
       mediaRecorder := Some \<lparr>rec_state = Inactive, rec_mimeType = ''video/webm''\<rparr>,
       stopEvents := 1,
       trace := trace scenario_D @ [Pause, RemoveTimeupdateListener 1, RecorderStop]\<rparr>"
proof -
  let ?w = "scenario_W\<lparr>seeked := []\<rparr>"
  let ?u = "run browser [TimeUpdate 12.5] scenario_D"
  have promise: "play_returns_promise browser" by (simp add: browser_def)
  have made: "onSeeked browser (seg 8 12 2 KEEP) ?w = scenario_D"
    using scenario_D_from_W by (simp add: step_def dispatch_seeked_def scenario_W_value)
  have k: "length (closures ?w) = 1" by (simp add: scenario_W_value)
  have quiet: "PlayFulfilled 1 \<notin> set [TimeUpdate 12.5]" by simp
  from checkEnd_armed [where c = 1 and s = ?w and env = browser and sg = "seg 8 12 2 KEEP"]
    promise
  have unarmed: "closures scenario_D = closures ?w @ [\<lparr>cl_seg = seg 8 12 2 KEEP, cl_isPlaying = False\<rparr>]"
    and gate: "\<forall>es. PlayFulfilled 1 \<notin> set es \<longrightarrow>
      \<not> cl_isPlaying (closures (run browser es scenario_D) ! 1) \<and>
      checkEnd browser 1 (run browser es scenario_D) = run browser es scenario_D"
    unfolding Let_def made k by blast+
  from gate quiet have still: "checkEnd browser 1 ?u = ?u" by blast
  have u: "?u = scenario_D\<lparr>video := (video scenario_D)\<lparr>currentTime := 12.5\<rparr>\<rparr>"
    unfolding scenario_D_value by (simp add: export_defs)
  have pending: "1 \<in> set (playPromises ?u) \<and> 1 < length (closures ?u)"
    unfolding u unfolding scenario_D_value by simp
  from checkEnd_armed [where c = 1 and s = ?u and env = browser and sg = "seg 8 12 2 KEEP"]
    pending
  have confirmed: "step browser (PlayFulfilled 1) ?u =
      (if currentTime (video ?u) \<ge> end' (cl_seg (closures ?u ! 1))
       then processNextSegment browser (pauseDetachIncrement 1
         (?u\<lparr>playPromises := removeAll 1 (playPromises ?u),
             closures := (closures ?u)[1 := (closures ?u ! 1)\<lparr>cl_isPlaying := True\<rparr>]\<rparr>))
       else ?u\<lparr>playPromises := removeAll 1 (playPromises ?u),
             closures := (closures ?u)[1 := (closures ?u ! 1)\<lparr>cl_isPlaying := True\<rparr>]\<rparr>)"
    unfolding Let_def by blast
  have advanced: "step browser (PlayFulfilled 1) ?u =
     scenario_D\<lparr>video := (video scenario_D)\<lparr>currentTime := 12.5, paused := True\<rparr>,
       closures := [\<lparr>cl_seg = seg 0 5 1 KEEP, cl_isPlaying = True\<rparr>,
                    \<lparr>cl_seg = seg 8 12 2 KEEP, cl_isPlaying = True\<rparr>],
       timeupdate := [], playPromises := [], currentSegmentIndex := 3,
       mediaRecorder := Some \<lparr>rec_state = Inactive, rec_mimeType = ''video/webm''\<rparr>,
       stopEvents := 1,
       trace := trace scenario_D @ [Pause, RemoveTimeupdateListener 1, RecorderStop]\<rparr>"
    unfolding confirmed unfolding u unfolding scenario_D_value
    by (simp add: processNextSegment_def pauseDetachIncrement_def MediaRecorder_stop_def
        issue_def Let_def scenario_A_def seg_def)
  show ?thesis
    using promise made unarmed k still u advanced by (simp add: scenario_W_value)
qed

lemma timeupdate_fold_idle:
  assumes "paused (video s) \<or> ended (video s)"
  shows "foldl (\<lambda>s' c. if c \<in> set (timeupdate s') then checkEnd env c s' else s') s cs = s"
  using assms by (induction cs) (simp_all add: checkEnd_def)

text \<open>
  C10: while the video is paused or ended, \<open>checkEnd\<close> returns at once: a report of a
  position, also one at or past the segment's end, only changes the position; the
  transport is not paused and the index does not move. The end of the media sets
  \<open>ended\<close>, so its own \<open>timeupdate\<close> does nothing either, wherever the media ends. In the
  instance below the media ends at 3 while the first segment of scenario A (which ends at
  5) is playing, and a later report of position 6 changes nothing but the position.
\<close>

theorem checkEnd_idle:
  "(paused (video s) \<or> ended (video s) \<longrightarrow>
      checkEnd env c s = s \<and>
      step env (TimeUpdate t) s = s\<lparr>video := (video s)\<lparr>currentTime := t\<rparr>\<rparr>) \<and>
   step env (MediaEnded t) s = s\<lparr>video := (video s)\<lparr>currentTime := t, ended := True\<rparr>\<rparr>"
  by (simp add: checkEnd_def step_def dispatch_timeupdate_def timeupdate_fold_idle)

theorem checkEnd_idle_witness:
  "step browser (MediaEnded 3) scenario_P =
     scenario_P\<lparr>video := (video scenario_P)\<lparr>currentTime := 3, ended := True\<rparr>\<rparr> \<and>
   ended (video (step browser (MediaEnded 3) scenario_P)) \<and>
   cl_isPlaying (closures (step browser (MediaEnded 3) scenario_P) ! 0) \<and>
   end' (cl_seg (closures (step browser (MediaEnded 3) scenario_P) ! 0)) \<le> 6 \<and>
   step browser (TimeUpdate 6) (step browser (MediaEnded 3) scenario_P) =
     scenario_P\<lparr>video := (video scenario_P)\<lparr>currentTime := 6, ended := True\<rparr>\<rparr> \<and>
   checkEnd browser 0 (scenario_P\<lparr>video := (video scenario_P)\<lparr>currentTime := 6, ended := True\<rparr>\<rparr>) =
     scenario_P\<lparr>video := (video scenario_P)\<lparr>currentTime := 6, ended := True\<rparr>\<rparr> \<and>
   currentSegmentIndex (step browser (TimeUpdate 6) (step browser (MediaEnded 3) scenario_P)) = 0"
  using checkEnd_idle [where s = scenario_P and env = browser and c = 0 and t = 3]
    checkEnd_idle [where s = "scenario_P\<lparr>video := (video scenario_P)\<lparr>currentTime := 3, ended := True\<rparr>\<rparr>"
      and env = browser and c = 0 and t = 6]
    checkEnd_idle [where s = "scenario_P\<lparr>video := (video scenario_P)\<lparr>currentTime := 6, ended := True\<rparr>\<rparr>"
      and env = browser and c = 0 and t = 6]
  by (simp add: scenario_P_value seg_def)

subsection \<open>Seeking\<close>

lemma trace_onSeeked:
  "trace (onSeeked env sg s) = trace s @
     [SetPlaybackRate (speed sg), AddTimeupdateListener (length (closures s)), Play]"
  by (simp add: onSeeked_def Let_def issue_def)

lemma seeked_onSeeked: "seeked (onSeeked env sg s) = seeked s"
  by (simp add: onSeeked_def Let_def issue_def)

lemma seeked_seeked_fold: "seeked (foldl (\<lambda>s' g. onSeeked env g s') s gs) = seeked s"
  by (induction gs arbitrary: s) (simp_all add: seeked_onSeeked)

lemma SeekedEvent_none: "seeked s = [] \<Longrightarrow> step env SeekedEvent s = s"
  by (simp add: step_def dispatch_seeked_def)

text \<open>
  C3: for a KEEP segment at the index, with \<open>p\<close> the progress reported. If the position
  is less than 0.05 from the segment's start, \<open>processNextSegment\<close> is \<open>onSeeked\<close>: it
  attaches no \<open>seeked\<close> listener, writes no position, and sets the speed, attaches the
  monitor and calls \<open>play()\<close> in the same task. Otherwise it attaches \<open>onSeeked\<close> as a
  \<open>once\<close> listener of \<open>seeked\<close>, writes the segment's start to the position and returns:
  the speed is not set and \<open>play()\<close> is not called. The next \<open>seeked\<close> event runs
  \<open>onSeeked\<close> for the segment (after the listeners attached earlier, if any) and removes
  the listener, so that a second \<open>seeked\<close> event changes nothing. In the instance below
  the first segment of scenario A starts where the video stands, and the last one needs
  the seek from 5 to 8.
\<close>

theorem processNextSegment_keep:
  assumes "currentSegmentIndex s < length (ex_segments s)"
    and "ex_segments s ! currentSegmentIndex s = sg" and "action sg = KEEP"
    and "p = progress (currentSegmentIndex s) (length (ex_segments s))"
  shows
    "(\<bar>currentTime (video s) - start sg\<bar> < 0.05 \<longrightarrow>
        processNextSegment env s = onSeeked env sg (issue (Progress p) s) \<and>
        seeked (processNextSegment env s) = seeked s \<and>
        trace (processNextSegment env s) = trace s @
          [Progress p, SetPlaybackRate (speed sg), AddTimeupdateListener (length (closures s)),
           Play]) \<and>
     (\<not> \<bar>currentTime (video s) - start sg\<bar> < 0.05 \<longrightarrow>
        (let w = processNextSegment env s in
          w = s\<lparr>video := (video s)\<lparr>currentTime := start sg\<rparr>, seeked := seeked s @ [sg],
                trace := trace s @ [Progress p, AddSeekedListener, SetCurrentTime (start sg)]\<rparr> \<and>
          step env SeekedEvent w =
            onSeeked env sg (foldl (\<lambda>s' g. onSeeked env g s') (w\<lparr>seeked := []\<rparr>) (seeked s)) \<and>
          (seeked s = [] \<longrightarrow> trace (step env SeekedEvent w) = trace w @
            [SetPlaybackRate (speed sg), AddTimeupdateListener (length (closures s)), Play]) \<and>
          seeked (step env SeekedEvent w) = [] \<and>
          step env SeekedEvent (step env SeekedEvent w) = step env SeekedEvent w))"
proof (intro conjI impI)
  assume near: "\<bar>currentTime (video s) - start sg\<bar> < 0.05"
  with assms show direct: "processNextSegment env s = onSeeked env sg (issue (Progress p) s)"
    by (simp add: processNextSegment_def Let_def issue_def)
  show "seeked (processNextSegment env s) = seeked s"
    by (simp add: direct seeked_onSeeked issue_def)
  show "trace (processNextSegment env s) = trace s @
      [Progress p, SetPlaybackRate (speed sg), AddTimeupdateListener (length (closures s)), Play]"
    by (simp add: direct trace_onSeeked issue_def)
next
  assume far: "\<not> \<bar>currentTime (video s) - start sg\<bar> < 0.05"
  define w where "w = processNextSegment env s"
  have w: "w = s\<lparr>video := (video s)\<lparr>currentTime := start sg\<rparr>, seeked := seeked s @ [sg],
      trace := trace s @ [Progress p, AddSeekedListener, SetCurrentTime (start sg)]\<rparr>"
    using assms far by (simp add: w_def processNextSegment_def Let_def issue_def)
  have fired: "step env SeekedEvent w =
      onSeeked env sg (foldl (\<lambda>s' g. onSeeked env g s') (w\<lparr>seeked := []\<rparr>) (seeked s))"
    by (simp add: step_def dispatch_seeked_def w)
  have once: "seeked (step env SeekedEvent w) = []"
    by (simp add: fired seeked_onSeeked seeked_seeked_fold)
  have alone: "trace (step env SeekedEvent w) = trace w @
      [SetPlaybackRate (speed sg), AddTimeupdateListener (length (closures s)), Play]"
    if "seeked s = []"
    using that by (simp add: fired trace_onSeeked) (simp add: w)
  show "let w = processNextSegment env s in
          w = s\<lparr>video := (video s)\<lparr>currentTime := start sg\<rparr>, seeked := seeked s @ [sg],
                trace := trace s @ [Progress p, AddSeekedListener, SetCurrentTime (start sg)]\<rparr> \<and>
          step env SeekedEvent w =
            onSeeked env sg (foldl (\<lambda>s' g. onSeeked env g s') (w\<lparr>seeked := []\<rparr>) (seeked s)) \<and>
          (seeked s = [] \<longrightarrow> trace (step env SeekedEvent w) = trace w @
            [SetPlaybackRate (speed sg), AddTimeupdateListener (length (closures s)), Play]) \<and>
          seeked (step env SeekedEvent w) = [] \<and>
          step env SeekedEvent (step env SeekedEvent w) = step env SeekedEvent w"
    unfolding Let_def w_def [symmetric]
    using w fired once alone SeekedEvent_none [OF once] by blast
qed

theorem processNextSegment_keep_witness:
  "currentSegmentIndex (initial scenario_A) < length (ex_segments (initial scenario_A)) \<and>
   action (seg 0 5 1 KEEP) = KEEP \<and>
   \<bar>currentTime (video (initial scenario_A)) - start (seg 0 5 1 KEEP)\<bar> < 0.05 \<and>
   seeked (processNextSegment browser (initial scenario_A)) = [] \<and>
   trace (processNextSegment browser (initial scenario_A)) =
     [Progress 0, SetPlaybackRate 1, AddTimeupdateListener 0, Play] \<and>
   \<not> \<bar>currentTime (video scenario_T) - start (seg 8 12 2 KEEP)\<bar> < 0.05 \<and>
   processNextSegment browser (scenario_T\<lparr>timeouts := 0\<rparr>) = scenario_W \<and>
   trace scenario_W = trace scenario_T @ [Progress 67, AddSeekedListener, SetCurrentTime 8] \<and>
   step browser SeekedEvent scenario_W = scenario_D \<and>
   trace scenario_D = trace scenario_W @ [SetPlaybackRate 2, AddTimeupdateListener 1, Play] \<and>
   step browser SeekedEvent scenario_D = scenario_D"
proof -
  let ?s = "initial scenario_A" and ?t = "scenario_T\<lparr>timeouts := 0\<rparr>"
  have first: "currentSegmentIndex ?s < length (ex_segments ?s)"
    "ex_segments ?s ! currentSegmentIndex ?s = seg 0 5 1 KEEP" "action (seg 0 5 1 KEEP) = KEEP"
    "0 = progress (currentSegmentIndex ?s) (length (ex_segments ?s))"
    by (simp_all add: initial_def scenario_A_def seg_def progress_def)
  have near: "\<bar>currentTime (video ?s) - start (seg 0 5 1 KEEP)\<bar> < 0.05"
    by (simp add: initial_def seg_def)
  from processNextSegment_keep [OF first, of browser] near
  have direct: "seeked (processNextSegment browser ?s) = seeked ?s"
    "trace (processNextSegment browser ?s) = trace ?s @
      [Progress 0, SetPlaybackRate (speed (seg 0 5 1 KEEP)),
       AddTimeupdateListener (length (closures ?s)), Play]"
    by blast+
  have third: "currentSegmentIndex ?t < length (ex_segments ?t)"
    "ex_segments ?t ! currentSegmentIndex ?t = seg 8 12 2 KEEP" "action (seg 8 12 2 KEEP) = KEEP"
    "67 = progress (currentSegmentIndex ?t) (length (ex_segments ?t))"
    by (simp_all add: scenario_T_value scenario_A_def seg_def progress_def round_def)
  have far: "\<not> \<bar>currentTime (video ?t) - start (seg 8 12 2 KEEP)\<bar> < 0.05"
    by (simp add: scenario_T_value seg_def)
  from processNextSegment_keep [OF third, of browser] far
  have waits: "processNextSegment browser ?t =
      ?t\<lparr>video := (video ?t)\<lparr>currentTime := start (seg 8 12 2 KEEP)\<rparr>,
         seeked := seeked ?t @ [seg 8 12 2 KEEP],
         trace := trace ?t @ [Progress 67, AddSeekedListener, SetCurrentTime (start (seg 8 12 2 KEEP))]\<rparr>"
    and once: "step browser SeekedEvent (step browser SeekedEvent (processNextSegment browser ?t)) =
      step browser SeekedEvent (processNextSegment browser ?t)"
    unfolding Let_def by blast+
  have W: "processNextSegment browser ?t = scenario_W"
    unfolding waits by (simp add: scenario_T_value scenario_W_value seg_def)
  show ?thesis
    using first near direct far W once scenario_D_from_W
    by (simp add: initial_def seg_def)
      (simp add: scenario_T_value scenario_W_value scenario_D_value)
qed

subsection \<open>Deleted segments\<close>

lemma processNextSegment_DELETE:
  assumes "currentSegmentIndex s < length (ex_segments s)"
    and "action (ex_segments s ! currentSegmentIndex s) = DELETE"
  shows "processNextSegment env s =
    s\<lparr>currentSegmentIndex := currentSegmentIndex s + 1, timeouts := timeouts s + 1,
      trace := trace s @
        [Progress (progress (currentSegmentIndex s) (length (ex_segments s))), SetTimeout]\<rparr>"
  using assms by (simp add: processNextSegment_def issue_def Let_def)

lemma Timeout_DELETE:
  assumes "0 < timeouts s" and "currentSegmentIndex s < length (ex_segments s)"
    and "action (ex_segments s ! currentSegmentIndex s) = DELETE"
  shows "step env Timeout s =
    s\<lparr>currentSegmentIndex := currentSegmentIndex s + 1,
      trace := trace s @
        [Progress (progress (currentSegmentIndex s) (length (ex_segments s))), SetTimeout]\<rparr>"
  using assms processNextSegment_DELETE [of "s\<lparr>timeouts := timeouts s - 1\<rparr>" env]
  by (simp add: step_def)

lemma run_Cons: "run env (e # es) s = run env es (step env e s)"
  by (simp add: run_def)

lemma Timeouts_DELETE:
  assumes "0 < timeouts s" and "currentSegmentIndex s + n \<le> length (ex_segments s)"
    and "\<forall>k < n. action (ex_segments s ! (currentSegmentIndex s + k)) = DELETE"
  shows "run env (replicate n Timeout) s =
    s\<lparr>currentSegmentIndex := currentSegmentIndex s + n,
      trace := trace s @ concat (map (\<lambda>i. [Progress (progress i (length (ex_segments s))), SetTimeout])
        [currentSegmentIndex s ..< currentSegmentIndex s + n])\<rparr>"
  using assms
proof (induction n arbitrary: s)
  case 0
  show ?case by (simp add: run_def)
next
  case (Suc n)
  let ?s1 = "step env Timeout s"
  from Suc.prems have first: "currentSegmentIndex s < length (ex_segments s)"
    "action (ex_segments s ! currentSegmentIndex s) = DELETE"
    by (simp, metis add.right_neutral zero_less_Suc)
  have s1: "?s1 = s\<lparr>currentSegmentIndex := currentSegmentIndex s + 1,
      trace := trace s @
        [Progress (progress (currentSegmentIndex s) (length (ex_segments s))), SetTimeout]\<rparr>"
    using Timeout_DELETE [OF Suc.prems(1) first] .
  have rest: "\<forall>k < n. action (ex_segments ?s1 ! (currentSegmentIndex ?s1 + k)) = DELETE"
  proof (intro allI impI)
    fix k assume "k < n"
    then have "action (ex_segments s ! (currentSegmentIndex s + Suc k)) = DELETE"
      using Suc.prems(3) by (metis Suc_less_eq)
    then show "action (ex_segments ?s1 ! (currentSegmentIndex ?s1 + k)) = DELETE"
      by (simp add: s1)
  qed
  have "run env (replicate n Timeout) ?s1 =
    ?s1\<lparr>currentSegmentIndex := currentSegmentIndex ?s1 + n,
      trace := trace ?s1 @ concat (map (\<lambda>i. [Progress (progress i (length (ex_segments ?s1))), SetTimeout])
        [currentSegmentIndex ?s1 ..< currentSegmentIndex ?s1 + n])\<rparr>"
    using Suc.prems by (intro Suc.IH rest) (simp_all add: s1)
  moreover have "[currentSegmentIndex s ..< currentSegmentIndex s + Suc n] =
      currentSegmentIndex s # [currentSegmentIndex ?s1 ..< currentSegmentIndex ?s1 + n]"
    by (simp add: s1 upt_conv_Cons del: upt_Suc)
  ultimately show ?case
    by (simp add: run_Cons s1 del: upt_Suc)
qed

text \<open>
  C4: for \<open>n\<close> consecutive segments with action DELETE from the index on. A call of
  \<open>processNextSegment\<close> at the first of them reports the progress, increments the index
  and leaves one more timeout pending, and that is all: no command goes to the transport,
  no chunk is added, and the segments behind are not looked at in this call. Each pending
  timeout runs as a task of its own and does the same for the next segment, so that \<open>n\<close>
  timeouts take the index over the \<open>n\<close> segments, one call of \<open>processNextSegment\<close> per
  task, with the video, the recorder and the chunks as they were.
\<close>

theorem processNextSegment_delete_run:
  assumes "currentSegmentIndex s + n \<le> length (ex_segments s)"
    and "\<forall>k < n. action (ex_segments s ! (currentSegmentIndex s + k)) = DELETE"
  shows
    "(0 < n \<longrightarrow> processNextSegment env s =
        s\<lparr>currentSegmentIndex := currentSegmentIndex s + 1, timeouts := timeouts s + 1,
          trace := trace s @
            [Progress (progress (currentSegmentIndex s) (length (ex_segments s))), SetTimeout]\<rparr>) \<and>
     (0 < timeouts s \<longrightarrow> run env (replicate n Timeout) s =
        s\<lparr>currentSegmentIndex := currentSegmentIndex s + n,
          trace := trace s @
            concat (map (\<lambda>i. [Progress (progress i (length (ex_segments s))), SetTimeout])
              [currentSegmentIndex s ..< currentSegmentIndex s + n])\<rparr>)"
proof (intro conjI impI)
  assume "0 < n"
  with assms have "currentSegmentIndex s < length (ex_segments s)"
    "action (ex_segments s ! currentSegmentIndex s) = DELETE"
    by (simp, metis add.right_neutral)
  then show "processNextSegment env s =
        s\<lparr>currentSegmentIndex := currentSegmentIndex s + 1, timeouts := timeouts s + 1,
          trace := trace s @
            [Progress (progress (currentSegmentIndex s) (length (ex_segments s))), SetTimeout]\<rparr>"
    by (rule processNextSegment_DELETE)
next
  assume "0 < timeouts s"
  from Timeouts_DELETE [OF this assms] show "run env (replicate n Timeout) s =
        s\<lparr>currentSegmentIndex := currentSegmentIndex s + n,
          trace := trace s @
            concat (map (\<lambda>i. [Progress (progress i (length (ex_segments s))), SetTimeout])
              [currentSegmentIndex s ..< currentSegmentIndex s + n])\<rparr>" .
qed

theorem processNextSegment_delete_run_witness:
  "currentSegmentIndex (initial deletes) + 3 \<le> length (ex_segments (initial deletes)) \<and>
   list_all (\<lambda>s. action s = DELETE) deletes \<and>
   processNextSegment browser (initial deletes) =
     (initial deletes)\<lparr>currentSegmentIndex := 1, timeouts := 1,
        trace := [Progress 0, SetTimeout]\<rparr> \<and>
   0 < timeouts (processNextSegment browser (initial deletes)) \<and>
   run browser (replicate 2 Timeout) (processNextSegment browser (initial deletes)) =
     (initial deletes)\<lparr>currentSegmentIndex := 3, timeouts := 1,
        trace := [Progress 0, SetTimeout, Progress 33, SetTimeout, Progress 67, SetTimeout]\<rparr>"
proof -
  have all: "\<forall>k < 3. action (ex_segments (initial deletes) ! (currentSegmentIndex (initial deletes) + k)) = DELETE"
    by (simp add: initial_def deletes_def seg_def less_Suc_eq numeral_3_eq_3)
  have first: "processNextSegment browser (initial deletes) =
     (initial deletes)\<lparr>currentSegmentIndex := 1, timeouts := 1,
        trace := [Progress 0, SetTimeout]\<rparr>"
    using processNextSegment_delete_run [of "initial deletes" 3 browser] all
    by (simp add: initial_def deletes_def progress_def)
  have rest: "\<forall>k < 2. action (ex_segments (processNextSegment browser (initial deletes)) !
      (currentSegmentIndex (processNextSegment browser (initial deletes)) + k)) = DELETE"
    unfolding first by (simp add: initial_def deletes_def seg_def less_Suc_eq numeral_2_eq_2)
  have "run browser (replicate 2 Timeout) (processNextSegment browser (initial deletes)) =
     (initial deletes)\<lparr>currentSegmentIndex := 3, timeouts := 1,
        trace := [Progress 0, SetTimeout, Progress 33, SetTimeout, Progress 67, SetTimeout]\<rparr>"
    using processNextSegment_delete_run [of "processNextSegment browser (initial deletes)" 2 browser] rest
    unfolding first by (simp add: initial_def deletes_def progress_def round_def upt_rec)
  with first show ?thesis
    by (simp add: initial_def deletes_def seg_def)
qed

end
